theory Spec2Isabelle
  imports Main "HOL-Library.Word" "HOL-Library.AList"
begin

section \<open>Interactive subprocess on a pseudo-terminal (ra\_aid/proc/interactive.py)\<close>

text \<open>
  The module has one function, \<open>run_interactive_command\<close>. Everything it does is a call
  into the operating system or a library (terminal size, pty allocation, process spawn,
  keyboard events, descriptor reads and writes). The embedding makes the answers of the
  outside world an explicit argument (a \<open>world\<close>) and records every call the function
  makes, with the answer it got, in a log. The function then is a pure map from the world,
  the command and the runtime hint to the log and the outcome.
\<close>

subsection \<open>Values\<close>

type_synonym byte = "8 word"
type_synonym bytes = "byte list"
type_synonym fd = int

text \<open>
  A Python \<open>str\<close> is the list of its code points (numbers below \<open>0x110000\<close>);
  \<open>str ''abc''\<close> is the \<open>str\<close> of a literal of the source.
\<close>

type_synonym str = "nat list"

definition str :: "string \<Rightarrow> str" where
  "str s = map of_char s"

text \<open>\<open>os.name == 'nt'\<close> selects the emulated pty; anything else is the native path.\<close>

datatype platform = Nt | Posix

text \<open>
  The exceptions the modelled calls can raise. \<open>OSError\<close> carries its errno
  (\<open>FileNotFoundError\<close> is \<open>OSError\<close> with errno 2, and is caught by
  \<open>except OSError\<close> like every other errno). The other four are not subclasses of
  \<open>OSError\<close>.
\<close>

datatype exn =
    OSError int
  | UnicodeDecodeError
  | UnicodeEncodeError
  | AttributeError
  | ValueError

fun is_OSError :: "exn \<Rightarrow> bool" where
  "is_OSError (OSError errno) = True"
| "is_OSError e = False"

text \<open>
  A keyboard event: \<open>event.event_type\<close> is \<open>keyboard.KEY_DOWN\<close> or
  \<open>keyboard.KEY_UP\<close>, \<open>event.name\<close> is the symbolic name of the key, or \<open>None\<close>
  for a key the library has no name for.
\<close>

datatype event_type = KEY_DOWN | KEY_UP

datatype key_event = KeyboardEvent (event_type: event_type) (name: "str option")

definition SIGINT :: int where
  "SIGINT = 2"

subsection \<open>\<open>str.encode()\<close> and \<open>bytes.decode()\<close>\<close>

text \<open>
  \<open>event.name.encode()\<close> is strict UTF-8: one to four bytes for a code point, and
  \<open>UnicodeEncodeError\<close> for a surrogate (\<open>0xD800\<close> to \<open>0xDFFF\<close>).
\<close>

definition encode_char :: "nat \<Rightarrow> exn + bytes" where
  "encode_char n =
     (if n < 0x80 then Inr [of_nat n]
      else if n < 0x800 then
        Inr [of_nat (0xC0 + n div 0x40), of_nat (0x80 + n mod 0x40)]
      else if 0xD800 \<le> n \<and> n < 0xE000 then Inl UnicodeEncodeError
      else if n < 0x10000 then
        Inr [of_nat (0xE0 + n div 0x1000), of_nat (0x80 + n div 0x40 mod 0x40),
             of_nat (0x80 + n mod 0x40)]
      else
        Inr [of_nat (0xF0 + n div 0x40000), of_nat (0x80 + n div 0x1000 mod 0x40),
             of_nat (0x80 + n div 0x40 mod 0x40), of_nat (0x80 + n mod 0x40)])"

fun encode :: "str \<Rightarrow> exn + bytes" where
  "encode [] = Inr []"
| "encode (c # cs) =
     (case encode_char c of
        Inl e \<Rightarrow> Inl e
      | Inr b \<Rightarrow> (case encode cs of Inl e \<Rightarrow> Inl e | Inr bs \<Rightarrow> Inr (b @ bs)))"

text \<open>
  \<open>chunk.decode()\<close> is strict UTF-8 and raises \<open>UnicodeDecodeError\<close> on any byte
  sequence that is not well formed (overlong forms, surrogates, values above U+10FFFF,
  truncated sequences). \<open>decodable\<close> is the test for well-formedness.
\<close>

definition continuation :: "byte \<Rightarrow> bool" where
  "continuation b \<longleftrightarrow> 0x80 \<le> b \<and> b \<le> 0xBF"

fun decodable :: "bytes \<Rightarrow> bool" where
  "decodable [] = True"
| "decodable (b # bs) =
     (if b < 0x80 then decodable bs
      else if 0xC2 \<le> b \<and> b \<le> 0xDF then
        (case bs of c1 # r \<Rightarrow> continuation c1 \<and> decodable r | _ \<Rightarrow> False)
      else if 0xE0 \<le> b \<and> b \<le> 0xEF then
        (case bs of
           c1 # c2 # r \<Rightarrow>
             (if b = 0xE0 then 0xA0 \<le> c1 \<and> c1 \<le> 0xBF
              else if b = 0xED then 0x80 \<le> c1 \<and> c1 \<le> 0x9F
              else continuation c1)
             \<and> continuation c2 \<and> decodable r
         | _ \<Rightarrow> False)
      else if 0xF0 \<le> b \<and> b \<le> 0xF4 then
        (case bs of
           c1 # c2 # c3 # r \<Rightarrow>
             (if b = 0xF0 then 0x90 \<le> c1 \<and> c1 \<le> 0xBF
              else if b = 0xF4 then 0x80 \<le> c1 \<and> c1 \<le> 0x8F
              else continuation c1)
             \<and> continuation c2 \<and> continuation c3 \<and> decodable r
         | _ \<Rightarrow> False)
      else False)"

subsection \<open>Calls and their answers\<close>

text \<open>The arguments of \<open>subprocess.Popen\<close>, as the two branches of the source pass them.\<close>

datatype stream = PIPE | Fd fd

datatype callable = Os_setsid

record popen_args =
  args :: "string list"
  stdin :: stream
  stdout :: stream
  stderr :: stream
  bufsize :: int
  close_fds :: bool
  env :: "(string \<times> string) list"
  shell :: bool
  preexec_fn :: "callable option"

text \<open>
  One entry of the log per call: the call with its arguments and, for the calls that the
  world answers, the answer (\<open>Inl\<close> or \<open>Some\<close> an exception raised by the call); the
  answer to \<open>print\<close> is kept in the world only. \<open>Poll\<close> and \<open>Kill\<close> are also
  logged when \<open>Popen.send_signal\<close> makes them: \<open>Kill pid sig\<close> is
  \<open>os.kill(pid, sig)\<close>, which signals the one process \<open>pid\<close> (it is taken to
  succeed: \<open>send_signal\<close> suppresses its \<open>ProcessLookupError\<close>).
\<close>

datatype call =
    Get_terminal_size "exn + int \<times> int"
  | Openpty "exn + fd \<times> fd"
  | WinPTY int int "exn + fd \<times> fd"
  | Popen popen_args "exn option"
  | Close fd
  | Pty_close
  | Poll "int option"
  | Read_event key_event
  | Send_signal int "exn option"
  | Kill int int
  | Write fd bytes "exn option"
  | Read fd nat "exn + bytes"
  | Print bytes

text \<open>
  What the outside world answers during one pass of the loop: the exit status
  \<open>proc.poll()\<close> finds at the head of the loop (\<open>None\<close> while the child runs), the
  event \<open>keyboard.read_event()\<close> returns, the exit status found by the poll that
  \<open>send_signal\<close> makes on the native path, the exception \<open>os.write\<close> raises (if any),
  what \<open>os.read\<close> returns or raises, and the exception \<open>print\<close> raises (if any). An
  answer is used only if the pass reaches the call.
\<close>

record iteration =
  poll_result :: "int option"
  key :: key_event
  signal_poll_result :: "int option"
  write_result :: "exn option"
  read_result :: "exn + bytes"
  print_result :: "exn option"

text \<open>
  The world of one session. \<open>new_pty\<close> is the answer to \<open>os.openpty()\<close> on the native
  path (controller and follower descriptor) and to \<open>WinPTY(cols, rows)\<close> on the emulated
  one (the object's \<open>fd\<close> and \<open>slave_fd\<close>). \<open>environ\<close> is \<open>os.environ\<close>, a dict in
  insertion order. \<open>pid\<close> is \<open>proc.pid\<close>, the process id of the child when the spawn
  succeeds. \<open>script\<close> is the finite part of the world's behaviour that has been
  observed: when it is used up the function is still waiting and has not returned.
\<close>

record world =
  os_name :: platform
  terminal_size :: "exn + int \<times> int"
  new_pty :: "exn + fd \<times> fd"
  environ :: "(string \<times> string) list"
  popen_result :: "exn option"
  pid :: int
  script :: "iteration list"

subsection \<open>The state of a session\<close>

text \<open>
  The local variable \<open>output\<close> (here \<open>output_buf\<close>), the attribute
  \<open>proc.returncode\<close>, and the log of calls made so far (oldest first).
\<close>

record session =
  output_buf :: bytes
  returncode :: "int option"
  trace :: "call list"

definition logged :: "call \<Rightarrow> session \<Rightarrow> session" where
  "logged c s = s\<lparr>trace := trace s @ [c]\<rparr>"

text \<open>How one pass through the loop body ends.\<close>

datatype flow = Next | Break | Raise exn

text \<open>How the \<open>while\<close> statement ends.\<close>

datatype exit = Normal | Exception exn

datatype outcome = Returned bytes int | Raised exn

text \<open>
  The result of the model: all calls made, and the outcome (\<open>None\<close> when the function
  has not returned within the observed script).
\<close>

record run =
  calls :: "call list"
  outcome :: "outcome option"

subsection \<open>The library calls on the child\<close>

text \<open>
  \<open>proc.poll()\<close> sets and returns \<open>proc.returncode\<close>: while no exit status has been
  collected it asks the operating system (the answer is \<open>found\<close>), afterwards it keeps
  the status it has.
\<close>

definition poll :: "int option \<Rightarrow> session \<Rightarrow> session" where
  "poll found s =
     (let rc = (case returncode s of None \<Rightarrow> found | Some c \<Rightarrow> Some c)
      in logged (Poll rc) (s\<lparr>returncode := rc\<rparr>))"

text \<open>
  \<open>proc.send_signal(signal.SIGINT)\<close>, as \<open>subprocess.py\<close> defines it. On the native
  path it calls \<open>self.poll()\<close> first, returns without signalling when the child has an
  exit status, and otherwise calls \<open>os.kill(self.pid, sig)\<close>. On Windows it returns when
  an exit status is known and otherwise raises \<open>ValueError\<close>, since \<open>SIGINT\<close> is
  none of the signals it supports there (\<open>SIGTERM\<close>, \<open>CTRL_C_EVENT\<close>,
  \<open>CTRL_BREAK_EVENT\<close>).
\<close>

definition send_signal ::
  "platform \<Rightarrow> int \<Rightarrow> iteration \<Rightarrow> session \<Rightarrow> exn option \<times> session" where
  "send_signal os child_pid it s =
     (if os = Nt then
        (if returncode s \<noteq> None then (None, logged (Send_signal SIGINT None) s)
         else (Some ValueError, logged (Send_signal SIGINT (Some ValueError)) s))
      else
        (let s1 = poll (signal_poll_result it) (logged (Send_signal SIGINT None) s)
         in if returncode s1 \<noteq> None then (None, s1)
            else (None, logged (Kill child_pid SIGINT) s1)))"

subsection \<open>The function\<close>

text \<open>
  Lines 81 to 84, the body of the inner \<open>try\<close>: the read, and for a chunk that is not
  empty the append to \<open>output\<close>, the decoding and the \<open>print\<close>. The result is the
  exception that leaves the body, if any.
\<close>

definition try_body :: "fd \<Rightarrow> iteration \<Rightarrow> session \<Rightarrow> exn option \<times> session" where
  "try_body master_fd it s =
     (let s1 = logged (Read master_fd 1024 (read_result it)) s
      in case read_result it of
           Inl e \<Rightarrow> (Some e, s1)
         | Inr chunk \<Rightarrow>
             if chunk \<noteq> [] then
               (let s2 = s1\<lparr>output_buf := output_buf s1 @ chunk\<rparr>
                in if decodable chunk then (print_result it, logged (Print chunk) s2)
                   else (Some UnicodeDecodeError, s2))
             else (None, s1))"

text \<open>Lines 80 to 86: the read step, with its \<open>except OSError: break\<close>.\<close>

definition read_output :: "fd \<Rightarrow> iteration \<Rightarrow> session \<Rightarrow> flow \<times> session" where
  "read_output master_fd it s =
     (case try_body master_fd it s of
        (None, s') \<Rightarrow> (Next, s')
      | (Some e, s') \<Rightarrow> if is_OSError e then (Break, s') else (Raise e, s'))"

text \<open>
  Lines 71 to 86: the body of the loop. \<open>keyboard.read_event()\<close> is taken to return the
  next event. A key press whose name is not \<open>'ctrl+c'\<close> reaches
  \<open>event.name.encode()\<close>, which raises \<open>AttributeError\<close> when the name is \<open>None\<close>.
\<close>

definition loop_body ::
  "platform \<Rightarrow> int \<Rightarrow> fd \<Rightarrow> iteration \<Rightarrow> session \<Rightarrow> flow \<times> session" where
  "loop_body os child_pid master_fd it s =
     (let event = key it;
          s1 = logged (Read_event event) s
      in if event_type event = KEY_DOWN then
           (if name event = Some (str ''ctrl+c'') then
              (case send_signal os child_pid it s1 of
                 (Some e, s2) \<Rightarrow> (Raise e, s2)
               | (None, s2) \<Rightarrow> (Break, s2))
            else
              (case name event of
                 None \<Rightarrow> (Raise AttributeError, s1)
               | Some nm \<Rightarrow>
                   (case encode nm of
                      Inl e \<Rightarrow> (Raise e, s1)
                    | Inr data \<Rightarrow>
                        (let s2 = logged (Write master_fd data (write_result it)) s1
                         in case write_result it of
                              Some e \<Rightarrow> (Raise e, s2)
                            | None \<Rightarrow> read_output master_fd it s2))))
         else read_output master_fd it s1)"

text \<open>Line 69: \<open>while proc.poll() is None\<close>.\<close>

fun while_loop ::
  "platform \<Rightarrow> int \<Rightarrow> fd \<Rightarrow> iteration list \<Rightarrow> session \<Rightarrow> exit option \<times> session" where
  "while_loop os child_pid master_fd [] s = (None, s)"
| "while_loop os child_pid master_fd (it # its) s =
     (let s1 = poll (poll_result it) s
      in if returncode s1 = None then
           (case loop_body os child_pid master_fd it s1 of
              (Next, s2) \<Rightarrow> while_loop os child_pid master_fd its s2
            | (Break, s2) \<Rightarrow> (Some Normal, s2)
            | (Raise e, s2) \<Rightarrow> (Some (Exception e), s2))
         else (Some Normal, s1))"


text \<open>
  Lines 88 to 92: the \<open>finally\<close> clause. \<open>os.close\<close> and the \<open>close()\<close> of the
  emulated pty are taken to succeed.
\<close>

definition cleanup :: "platform \<Rightarrow> fd \<Rightarrow> session \<Rightarrow> session" where
  "cleanup os master_fd s =
     (if os = Nt then logged Pty_close s
      else if master_fd \<ge> 0 then logged (Close master_fd) s
      else s)"

text \<open>
  Lines 68 to 94: the \<open>try\<close> statement and the \<open>return\<close>. An exception leaves through
  the \<open>finally\<close> clause and then reaches the caller.
\<close>

definition session_result :: "platform \<Rightarrow> fd \<Rightarrow> exit option \<times> session \<Rightarrow> run" where
  "session_result os master_fd r =
     (case r of
        (None, s) \<Rightarrow> \<lparr>calls = trace s, outcome = None\<rparr>
      | (Some Normal, s) \<Rightarrow>
          (let s' = cleanup os master_fd s
           in \<lparr>calls = trace s',
               outcome = Some (Returned (output_buf s')
                 (case returncode s' of Some c \<Rightarrow> c | None \<Rightarrow> - 1))\<rparr>)
      | (Some (Exception e), s) \<Rightarrow>
          (let s' = cleanup os master_fd s
           in \<lparr>calls = trace s', outcome = Some (Raised e)\<rparr>))"

text \<open>Lines 39 and 40: \<open>env = os.environ.copy(); env['TERM'] = 'xterm'\<close>.\<close>

definition child_env :: "(string \<times> string) list \<Rightarrow> (string \<times> string) list" where
  "child_env environ_copy = AList.update ''TERM'' ''xterm'' environ_copy"

text \<open>Lines 43 to 64: the arguments of the two \<open>Popen\<close> calls.\<close>

definition spawn_args ::
  "platform \<Rightarrow> string list \<Rightarrow> fd \<Rightarrow> (string \<times> string) list \<Rightarrow> popen_args" where
  "spawn_args os cmd slave_fd e =
     (if os = Nt then
        \<lparr>args = cmd, stdin = PIPE, stdout = Fd slave_fd, stderr = Fd slave_fd,
         bufsize = 0, close_fds = True, env = e, shell = True, preexec_fn = None\<rparr>
      else
        \<lparr>args = cmd, stdin = Fd slave_fd, stdout = Fd slave_fd, stderr = Fd slave_fd,
         bufsize = 0, close_fds = True, env = e, shell = False,
         preexec_fn = Some Os_setsid\<rparr>)"

text \<open>
  The whole function. An exception of \<open>os.get_terminal_size\<close>, of the pty allocation or
  of \<open>Popen\<close> is raised before the \<open>try\<close> statement is entered, so the \<open>finally\<close>
  clause does not run for it.
\<close>

definition run_interactive_command :: "world \<Rightarrow> string list \<Rightarrow> int \<Rightarrow> run" where
  "run_interactive_command w cmd expected_runtime_seconds =
     (let t0 = [Get_terminal_size (terminal_size w)]
      in case terminal_size w of
           Inl e \<Rightarrow> \<lparr>calls = t0, outcome = Some (Raised e)\<rparr>
         | Inr (cols, rows) \<Rightarrow>
             (let t1 = t0 @ [if os_name w = Nt then WinPTY cols rows (new_pty w)
                             else Openpty (new_pty w)]
              in case new_pty w of
                   Inl e \<Rightarrow> \<lparr>calls = t1, outcome = Some (Raised e)\<rparr>
                 | Inr (master_fd, slave_fd) \<Rightarrow>
                     (let e = child_env (environ w);
                          t2 = t1 @ [Popen (spawn_args (os_name w) cmd slave_fd e)
                                       (popen_result w)]
                      in case popen_result w of
                           Some x \<Rightarrow> \<lparr>calls = t2, outcome = Some (Raised x)\<rparr>
                         | None \<Rightarrow>
                             (let t3 = (if os_name w = Nt then t2 else t2 @ [Close slave_fd]);
                                  s0 = \<lparr>output_buf = [], returncode = None, trace = t3\<rparr>
                              in session_result (os_name w) master_fd
                                   (while_loop (os_name w) (pid w) master_fd (script w) s0)))))"


section \<open>Notions used to state the properties\<close>

subsection \<open>Reading the log\<close>

text \<open>
  A release of the pty: \<open>os.close\<close> on the controller descriptor, or the emulated pty
  object's \<open>close()\<close>.
\<close>

fun is_release :: "fd \<Rightarrow> call \<Rightarrow> bool" where
  "is_release m (Close f) = (f = m)"
| "is_release m Pty_close = True"
| "is_release m _ = False"

definition releases :: "fd \<Rightarrow> call list \<Rightarrow> nat" where
  "releases m cs = length (filter (is_release m) cs)"

text \<open>The bytes that the \<open>os.read\<close> calls of a log returned, in order.\<close>

fun chunk_of :: "call \<Rightarrow> bytes" where
  "chunk_of (Read f n (Inr chunk)) = chunk"
| "chunk_of _ = []"

definition captured :: "call list \<Rightarrow> bytes" where
  "captured cs = concat (map chunk_of cs)"

text \<open>
  The exit status the operating system has reported in a log: that of the latest
  \<open>proc.poll()\<close> which found one, \<open>None\<close> if no poll did.
\<close>

fun reported :: "call list \<Rightarrow> int option" where
  "reported [] = None"
| "reported (Poll rc # cs) = (case reported cs of None \<Rightarrow> rc | Some c \<Rightarrow> Some c)"
| "reported (c # cs) = reported cs"

text \<open>The calls that the loop makes (all others belong to set-up and clean-up).\<close>

fun loop_call :: "call \<Rightarrow> bool" where
  "loop_call (Poll rc) = True"
| "loop_call (Read_event ev) = True"
| "loop_call (Send_signal sig r) = True"
| "loop_call (Kill p sig) = True"
| "loop_call (Write f b r) = True"
| "loop_call (Read f n r) = True"
| "loop_call (Print b) = True"
| "loop_call _ = False"


text \<open>The calls that spawn a child.\<close>

fun is_popen :: "call \<Rightarrow> bool" where
  "is_popen (Popen a r) = True"
| "is_popen _ = False"

text \<open>The calls of the \<open>finally\<close> clause.\<close>

definition finally_calls :: "platform \<Rightarrow> fd \<Rightarrow> call list" where
  "finally_calls os master_fd =
     trace (cleanup os master_fd \<lparr>output_buf = [], returncode = None, trace = []\<rparr>)"

subsection \<open>The kinds of passes of the loop\<close>

text \<open>
  The key step of a pass goes through to the read step when the event is a key release,
  or the press of a key that has a name, other than the interrupt combination, whose
  name can be encoded and is written without error.
\<close>

definition key_step_done :: "iteration \<Rightarrow> bool" where
  "key_step_done it \<longleftrightarrow>
     (event_type (key it) = KEY_DOWN \<longrightarrow>
        (case name (key it) of
           None \<Rightarrow> False
         | Some nm \<Rightarrow>
             nm \<noteq> str ''ctrl+c'' \<and> (case encode nm of Inl e \<Rightarrow> False | Inr data \<Rightarrow> True))
        \<and> write_result it = None)"

text \<open>
  A pass of the loop is followed by another one when the child is found running, the
  key step goes through, and the read returns bytes that are empty, or decodable and
  printed without error. \<open>passes_next\<close> below proves that this is what the code does.
\<close>

definition passes :: "iteration \<Rightarrow> bool" where
  "passes it \<longleftrightarrow>
     poll_result it = None \<and> key_step_done it \<and>
     (case read_result it of
        Inl e \<Rightarrow> False
      | Inr chunk \<Rightarrow> chunk = [] \<or> (decodable chunk \<and> print_result it = None))"

text \<open>
  A pass ends the loop without an exception when the poll at the head of the loop finds
  the child exited, or the interrupt key is pressed on the native path, or the key step
  goes through and the read or the print raises \<open>OSError\<close>. \<open>breaks_normal\<close> below
  proves that the loop then ends normally, \<open>returned_has_break\<close> that it ends
  normally in no other way.
\<close>

definition breaks :: "platform \<Rightarrow> iteration \<Rightarrow> bool" where
  "breaks os it \<longleftrightarrow>
     poll_result it \<noteq> None \<or>
     (event_type (key it) = KEY_DOWN \<and> name (key it) = Some (str ''ctrl+c'') \<and> os = Posix) \<or>
     (key_step_done it \<and>
      (case read_result it of
         Inl e \<Rightarrow> is_OSError e
       | Inr chunk \<Rightarrow>
           chunk \<noteq> [] \<and> decodable chunk \<and>
           (case print_result it of None \<Rightarrow> False | Some e \<Rightarrow> is_OSError e)))"

definition chunk_read :: "iteration \<Rightarrow> bytes" where
  "chunk_read it = (case read_result it of Inl e \<Rightarrow> [] | Inr chunk \<Rightarrow> chunk)"

text \<open>The session after one whole pass (poll and body).\<close>

definition after :: "platform \<Rightarrow> int \<Rightarrow> fd \<Rightarrow> iteration \<Rightarrow> session \<Rightarrow> session" where
  "after os child_pid master_fd it s =
     snd (loop_body os child_pid master_fd it (poll (poll_result it) s))"

text \<open>The session at the moment the \<open>try\<close> statement is entered.\<close>

definition entry :: "world \<Rightarrow> string list \<Rightarrow> int \<Rightarrow> int \<Rightarrow> fd \<Rightarrow> fd \<Rightarrow> session" where
  "entry w cmd cols rows master_fd slave_fd =
     \<lparr>output_buf = [], returncode = None,
      trace = [Get_terminal_size (terminal_size w),
               if os_name w = Nt then WinPTY cols rows (new_pty w) else Openpty (new_pty w),
               Popen (spawn_args (os_name w) cmd slave_fd (child_env (environ w))) None]
              @ (if os_name w = Nt then [] else [Close slave_fd])\<rparr>"

text \<open>
  The invariant of a session: the buffer holds what the reads of the log returned, and
  \<open>proc.returncode\<close> is what the polls of the log reported.
\<close>

definition consistent :: "session \<Rightarrow> bool" where
  "consistent s \<longleftrightarrow> output_buf s = captured (trace s) \<and> returncode s = reported (trace s)"

subsection \<open>Example worlds\<close>

text \<open>
  A Unix terminal of 80 columns and 24 rows, \<open>os.openpty()\<close> returning descriptors 3 and
  4. In \<open>w_enoent\<close> the command does not exist and \<open>Popen\<close> raises
  \<open>FileNotFoundError\<close> (errno 2); in \<open>w_unix its\<close> the spawn succeeds, the child has
  process id 4242, and the world then behaves as \<open>its\<close> says.
\<close>

definition w_enoent :: world where
  "w_enoent = \<lparr>os_name = Posix, terminal_size = Inr (80, 24), new_pty = Inr (3, 4),
     environ = [(''PATH'', ''/usr/bin''), (''TERM'', ''screen'')],
     popen_result = Some (OSError 2), pid = 0, script = []\<rparr>"

definition w_unix :: "iteration list \<Rightarrow> world" where
  "w_unix its = \<lparr>os_name = Posix, terminal_size = Inr (80, 24), new_pty = Inr (3, 4),
     environ = [(''PATH'', ''/usr/bin''), (''TERM'', ''screen'')],
     popen_result = None, pid = 4242, script = its\<rparr>"


text \<open>
  Passes of the loop. \<open>quiet ev\<close> is the pass in which the child runs, the event is
  \<open>ev\<close>, no call fails and nothing is read; the others differ from it as their names
  say (errno 5 is \<open>EIO\<close>).
\<close>

definition quiet :: "key_event \<Rightarrow> iteration" where
  "quiet ev = \<lparr>poll_result = None, key = ev, signal_poll_result = None,
     write_result = None, read_result = Inr [], print_result = None\<rparr>"

definition key_down_enter :: iteration where
  "key_down_enter =
     (quiet (KeyboardEvent KEY_DOWN (Some (str ''enter''))))\<lparr>read_result := Inr [0x68, 0x69]\<rparr>"

definition key_up_enter :: iteration where
  "key_up_enter = quiet (KeyboardEvent KEY_UP (Some (str ''enter'')))"

definition key_up_output :: iteration where
  "key_up_output =
     (quiet (KeyboardEvent KEY_UP (Some (str ''ctrl+c''))))\<lparr>read_result := Inr [0x6F, 0x6B]\<rparr>"



definition key_down_unnamed :: iteration where
  "key_down_unnamed = quiet (KeyboardEvent KEY_DOWN None)"

definition child_exited :: "int \<Rightarrow> iteration" where
  "child_exited code = (quiet (KeyboardEvent KEY_UP (Some (str ''a''))))\<lparr>poll_result := Some code\<rparr>"

definition write_fails :: iteration where
  "write_fails =
     (quiet (KeyboardEvent KEY_DOWN (Some (str ''a''))))\<lparr>write_result := Some (OSError 5)\<rparr>"




lemmas model_defs = run_interactive_command_def session_result_def cleanup_def
  loop_body_def read_output_def try_body_def send_signal_def poll_def logged_def child_env_def
  spawn_args_def Let_def encode_char_def continuation_def SIGINT_def str_def

section \<open>Facts about the model\<close>

subsection \<open>Single calls\<close>

lemma trace_cleanup: "trace (cleanup os m s) = trace s @ finally_calls os m"
  by (simp add: cleanup_def finally_calls_def logged_def)

lemma output_cleanup: "output_buf (cleanup os m s) = output_buf s"
  by (simp add: cleanup_def logged_def)

lemma returncode_cleanup: "returncode (cleanup os m s) = returncode s"
  by (simp add: cleanup_def logged_def)

lemma poll_alive:
  "returncode s = None \<Longrightarrow> poll None s = s\<lparr>trace := trace s @ [Poll None]\<rparr>"
  by (simp add: poll_def logged_def)

lemma poll_exited:
  "returncode s = None \<Longrightarrow>
   poll (Some c) s = s\<lparr>returncode := Some c, trace := trace s @ [Poll (Some c)]\<rparr>"
  by (simp add: poll_def logged_def Let_def)

lemma poll_extends: "trace (poll found s) = trace s @ [Poll (returncode (poll found s))]"
  by (simp add: poll_def logged_def Let_def)

lemma try_body_cases:
  "try_body fd it s =
     (case read_result it of
        Inl e \<Rightarrow> (Some e, s\<lparr>trace := trace s @ [Read fd 1024 (Inl e)]\<rparr>)
      | Inr chunk \<Rightarrow>
          (if chunk = [] then None
           else if decodable chunk then print_result it
           else Some UnicodeDecodeError,
           s\<lparr>output_buf := output_buf s @ chunk,
             trace := trace s @ [Read fd 1024 (Inr chunk)]
                      @ (if chunk \<noteq> [] \<and> decodable chunk then [Print chunk] else [])\<rparr>))"
  by (auto simp add: try_body_def logged_def Let_def split: sum.splits)

lemma snd_read_output: "snd (read_output fd it s) = snd (try_body fd it s)"
  by (simp add: read_output_def split: prod.splits option.splits)

lemma fst_read_output:
  "fst (read_output fd it s) =
     (case fst (try_body fd it s) of
        None \<Rightarrow> Next
      | Some e \<Rightarrow> if is_OSError e then Break else Raise e)"
  by (simp add: read_output_def split: prod.splits option.splits)


lemma send_signal_nt:
  "returncode s = None \<Longrightarrow>
   send_signal Nt p it s =
     (Some ValueError, s\<lparr>trace := trace s @ [Send_signal SIGINT (Some ValueError)]\<rparr>)"
  by (simp add: send_signal_def logged_def)

subsection \<open>The body of the loop, by the kind of event\<close>

lemma loop_body_interrupt:
  "key it = KeyboardEvent KEY_DOWN (Some (str ''ctrl+c'')) \<Longrightarrow>
   loop_body os p fd it s =
     (case send_signal os p it (s\<lparr>trace := trace s @ [Read_event (key it)]\<rparr>) of
        (Some e, s2) \<Rightarrow> (Raise e, s2)
      | (None, s2) \<Rightarrow> (Break, s2))"
  by (simp add: loop_body_def logged_def Let_def)



lemma loop_body_key_down:
  "event_type (key it) = KEY_DOWN \<Longrightarrow> name (key it) = Some nm \<Longrightarrow>
   nm \<noteq> str ''ctrl+c'' \<Longrightarrow> encode nm = Inr data \<Longrightarrow>
   loop_body os p fd it s =
     (case write_result it of
        Some e \<Rightarrow>
          (Raise e, s\<lparr>trace := trace s @ [Read_event (key it), Write fd data (Some e)]\<rparr>)
      | None \<Rightarrow>
          read_output fd it
            (s\<lparr>trace := trace s @ [Read_event (key it), Write fd data None]\<rparr>))"
  by (simp add: loop_body_def logged_def Let_def split: option.splits)

lemma loop_body_unnamed:
  "event_type (key it) = KEY_DOWN \<Longrightarrow> name (key it) = None \<Longrightarrow>
   loop_body os p fd it s =
     (Raise AttributeError, s\<lparr>trace := trace s @ [Read_event (key it)]\<rparr>)"
  by (simp add: loop_body_def logged_def Let_def)

lemma loop_body_unencodable:
  "event_type (key it) = KEY_DOWN \<Longrightarrow> name (key it) = Some nm \<Longrightarrow>
   nm \<noteq> str ''ctrl+c'' \<Longrightarrow> encode nm = Inl e \<Longrightarrow>
   loop_body os p fd it s = (Raise e, s\<lparr>trace := trace s @ [Read_event (key it)]\<rparr>)"
  by (simp add: loop_body_def logged_def Let_def)

lemma loop_body_key_up:
  "event_type (key it) \<noteq> KEY_DOWN \<Longrightarrow>
   loop_body os p fd it s =
     read_output fd it (s\<lparr>trace := trace s @ [Read_event (key it)]\<rparr>)"
  by (simp add: loop_body_def logged_def Let_def)

subsection \<open>The loop only adds calls of its own to the log\<close>

lemma read_output_extends:
  "\<exists>new. trace (snd (read_output fd it s)) = trace s @ new \<and> list_all loop_call new"
  by (simp add: snd_read_output try_body_cases split: sum.splits)

lemma send_signal_extends:
  "\<exists>new. trace (snd (send_signal os p it s)) = trace s @ new \<and> list_all loop_call new"
  by (simp add: send_signal_def poll_def logged_def Let_def)

lemma loop_body_extends:
  "\<exists>new. trace (snd (loop_body os p fd it s)) = trace s @ new \<and> list_all loop_call new"
proof -
  let ?s1 = "logged (Read_event (key it)) s"
  have s1: "trace ?s1 = trace s @ [Read_event (key it)]"
    by (simp add: logged_def)
  have ext: "\<exists>new. trace t = trace s @ new \<and> list_all loop_call new"
    if h: "\<exists>new. trace t = trace ?s1 @ new \<and> list_all loop_call new" for t
  proof -
    obtain new where "trace t = trace ?s1 @ new" "list_all loop_call new"
      using h by blast
    then have "trace t = trace s @ (Read_event (key it) # new)"
        "list_all loop_call (Read_event (key it) # new)"
      using s1 by simp_all
    then show ?thesis by blast
  qed
  have w: "\<exists>new. trace (snd (read_output fd it (logged c ?s1))) = trace ?s1 @ new
      \<and> list_all loop_call new" if c: "loop_call c" for c
  proof -
    obtain new where "trace (snd (read_output fd it (logged c ?s1))) =
        trace (logged c ?s1) @ new" "list_all loop_call new"
      using read_output_extends [of fd it "logged c ?s1"] by blast
    then have "trace (snd (read_output fd it (logged c ?s1))) = trace ?s1 @ (c # new)"
        "list_all loop_call (c # new)"
      using c by (simp_all add: logged_def)
    then show ?thesis by blast
  qed
  have "\<exists>new. trace (snd (loop_body os p fd it s)) = trace ?s1 @ new \<and> list_all loop_call new"
    unfolding loop_body_def Let_def
    using send_signal_extends [of os p it ?s1] read_output_extends [of fd it ?s1] w
    by (auto simp add: logged_def split: prod.splits option.splits sum.splits)
  then show ?thesis by (rule ext)
qed

lemma while_loop_extends:
  "\<exists>new. trace (snd (while_loop os p fd its s)) = trace s @ new \<and> list_all loop_call new"
proof (induction its arbitrary: s)
  case Nil
  show ?case by simp
next
  case (Cons it its)
  let ?p = "poll (poll_result it) s"
  obtain fl s2 where b: "loop_body os p fd it ?p = (fl, s2)"
    by (cases "loop_body os p fd it ?p")
  obtain n1 where n1: "trace s2 = trace ?p @ n1" "list_all loop_call n1"
    using loop_body_extends [of os p fd it ?p] b by auto
  have s2: "trace s2 = trace s @ (Poll (returncode ?p) # n1)"
    using n1 poll_extends [of "poll_result it" s] by simp
  show ?case
  proof (cases "returncode ?p = None")
    case False
    then show ?thesis using poll_extends [of "poll_result it" s] by (auto simp add: Let_def)
  next
    case True
    show ?thesis
    proof (cases fl)
      case Next
      obtain n2 where n2: "trace (snd (while_loop os p fd its s2)) = trace s2 @ n2"
          "list_all loop_call n2"
        using Cons.IH [of s2] by auto
      have "trace (snd (while_loop os p fd (it # its) s)) = trace s @ (Poll None # n1 @ n2)"
        using True b Next n2 s2 by (simp add: Let_def)
      moreover have "list_all loop_call (Poll None # n1 @ n2)"
        using n1 n2 by simp
      ultimately show ?thesis by blast
    next
      case Break
      then show ?thesis using True b s2 n1 by (simp add: Let_def)
    next
      case (Raise e)
      then show ?thesis using True b s2 n1 by (simp add: Let_def)
    qed
  qed
qed

lemma through_extends:
  "\<exists>new. trace (foldl (\<lambda>t i. after os p fd i t) s pre) = trace s @ new
         \<and> list_all loop_call new"
proof (induction pre arbitrary: s)
  case Nil
  show ?case by simp
next
  case (Cons i pre)
  let ?a = "after os p fd i s"
  obtain n1 where n1: "trace ?a = trace (poll (poll_result i) s) @ n1" "list_all loop_call n1"
    using loop_body_extends [of os p fd i "poll (poll_result i) s"] by (auto simp add: after_def)
  obtain n2 where n2: "trace (foldl (\<lambda>t i. after os p fd i t) ?a pre) = trace ?a @ n2"
      "list_all loop_call n2"
    using Cons.IH [of ?a] by auto
  have "trace (foldl (\<lambda>t i. after os p fd i t) s (i # pre))
      = trace s @ (Poll (returncode (poll (poll_result i) s)) # n1 @ n2)"
    using n1 n2 poll_extends [of "poll_result i" s] by simp
  moreover have "list_all loop_call (Poll (returncode (poll (poll_result i) s)) # n1 @ n2)"
    using n1 n2 by simp
  ultimately show ?case by blast
qed

lemma while_loop_alive:
  assumes "returncode s = None" "poll_result it = None"
  shows "\<exists>rest. trace (snd (while_loop os p fd (it # its) s)) =
           trace (snd (loop_body os p fd it (s\<lparr>trace := trace s @ [Poll None]\<rparr>))) @ rest
         \<and> list_all loop_call rest"
proof -
  let ?p = "s\<lparr>trace := trace s @ [Poll None]\<rparr>"
  have p: "poll (poll_result it) s = ?p" "returncode ?p = None"
    using assms by (simp_all add: poll_alive)
  obtain fl s2 where b: "loop_body os p fd it ?p = (fl, s2)"
    by (cases "loop_body os p fd it ?p")
  show ?thesis
  proof (cases fl)
    case Next
    then show ?thesis
      using b p while_loop_extends [of os p fd its s2] by (simp add: Let_def)
  next
    case Break
    then show ?thesis using b p by (simp add: Let_def)
  next
    case (Raise e)
    then show ?thesis using b p by (simp add: Let_def)
  qed
qed

lemma no_release_in_loop: "list_all loop_call cs \<Longrightarrow> filter (is_release m) cs = []"
  by (induction cs) (auto elim: loop_call.elims)

lemma no_popen_in_loop: "list_all loop_call cs \<Longrightarrow> filter is_popen cs = []"
  by (induction cs) (auto elim: loop_call.elims)

lemma no_popen_finally: "filter is_popen (finally_calls os m) = []"
  by (simp add: finally_calls_def cleanup_def logged_def)

subsection \<open>The buffer and the exit status agree with the log\<close>

lemma captured_append: "captured (cs @ ds) = captured cs @ captured ds"
  by (simp add: captured_def)

lemma reported_append:
  "reported (cs @ ds) = (case reported ds of None \<Rightarrow> reported cs | Some c \<Rightarrow> Some c)"
  by (induction cs rule: reported.induct) (simp_all split: option.splits)

lemma captured_finally: "captured (finally_calls os m) = []"
  by (simp add: finally_calls_def cleanup_def logged_def captured_def)

lemma reported_finally: "reported (finally_calls os m) = None"
  by (simp add: finally_calls_def cleanup_def logged_def)

lemma consistent_poll: "consistent s \<Longrightarrow> consistent (poll found s)"
  by (simp add: consistent_def poll_def logged_def Let_def captured_append reported_append
      captured_def split: option.splits)

lemma consistent_logged:
  "chunk_of c = [] \<Longrightarrow> reported [c] = None \<Longrightarrow> consistent s \<Longrightarrow> consistent (logged c s)"
  by (simp add: consistent_def logged_def captured_append reported_append captured_def)

lemma consistent_read_output: "consistent s \<Longrightarrow> consistent (snd (read_output fd it s))"
  by (simp add: consistent_def snd_read_output try_body_cases captured_append reported_append
      captured_def split: sum.splits)

lemma consistent_send_signal: "consistent s \<Longrightarrow> consistent (snd (send_signal os p it s))"
  by (simp add: send_signal_def Let_def consistent_poll consistent_logged)

lemma consistent_loop_body: "consistent s \<Longrightarrow> consistent (snd (loop_body os p fd it s))"
proof -
  assume s: "consistent s"
  have s1: "consistent (logged (Read_event (key it)) s)"
    using s by (simp add: consistent_logged)
  have sig: "consistent (snd (send_signal os p it (logged (Read_event (key it)) s)))"
    by (rule consistent_send_signal [OF s1])
  have rd: "consistent (snd (read_output fd it (logged (Read_event (key it)) s)))"
    by (rule consistent_read_output [OF s1])
  have wr: "consistent (logged (Write fd data r) (logged (Read_event (key it)) s))" for data r
    using s1 by (simp add: consistent_logged)
  have wrd: "consistent (snd (read_output fd it
      (logged (Write fd data r) (logged (Read_event (key it)) s))))" for data r
    by (rule consistent_read_output [OF wr])
  show ?thesis
    unfolding loop_body_def Let_def
    using s1 sig rd wr wrd
    by (auto split: prod.splits option.splits sum.splits)
qed

lemma consistent_while_loop:
  "consistent s \<Longrightarrow> consistent (snd (while_loop os p fd its s))"
proof (induction its arbitrary: s)
  case Nil
  then show ?case by simp
next
  case (Cons it its)
  let ?p = "poll (poll_result it) s"
  obtain fl s2 where b: "loop_body os p fd it ?p = (fl, s2)"
    by (cases "loop_body os p fd it ?p")
  have p: "consistent ?p"
    using Cons.prems by (rule consistent_poll)
  have s2: "consistent s2"
    using consistent_loop_body [OF p, of os p fd it] b by simp
  show ?case
  proof (cases "returncode ?p = None")
    case False
    then show ?thesis using p by (auto simp add: Let_def)
  next
    case True
    then show ?thesis
      using b s2 Cons.IH [OF s2] by (cases fl) (simp_all add: Let_def)
  qed
qed

lemma consistent_entry: "consistent (entry w cmd cols rows m sl)"
  by (simp add: consistent_def entry_def captured_def)

lemma consistent_through:
  "consistent s \<Longrightarrow> consistent (foldl (\<lambda>t i. after os p fd i t) s pre)"
proof (induction pre arbitrary: s)
  case Nil
  then show ?case by simp
next
  case (Cons i pre)
  have "consistent (after os p fd i s)"
    unfolding after_def
    by (rule consistent_loop_body [OF consistent_poll [OF Cons.prems]])
  then show ?case using Cons.IH by simp
qed

subsection \<open>From the call to the loop, and from the loop to the result\<close>

lemma run_entry:
  assumes "terminal_size w = Inr (cols, rows)" "new_pty w = Inr (master_fd, slave_fd)"
    "popen_result w = None"
  shows "run_interactive_command w cmd n =
     session_result (os_name w) master_fd
       (while_loop (os_name w) (pid w) master_fd (script w)
          (entry w cmd cols rows master_fd slave_fd))"
  using assms by (simp add: run_interactive_command_def entry_def Let_def)

lemma early_failures:
  "terminal_size w = Inl e \<Longrightarrow> outcome (run_interactive_command w cmd n) = Some (Raised e)"
  "terminal_size w = Inr sz \<Longrightarrow> new_pty w = Inl e \<Longrightarrow>
     outcome (run_interactive_command w cmd n) = Some (Raised e)"
  "terminal_size w = Inr sz \<Longrightarrow> new_pty w = Inr pr \<Longrightarrow> popen_result w = Some e \<Longrightarrow>
     outcome (run_interactive_command w cmd n) = Some (Raised e)"
  by (simp_all add: run_interactive_command_def Let_def split: prod.splits)

lemma calls_session_result:
  "calls (session_result os m (ex, s)) =
     trace s @ (if ex = None then [] else finally_calls os m)"
  by (simp add: session_result_def trace_cleanup Let_def split: option.splits exit.splits)

lemma outcome_session_result:
  "outcome (session_result os m (ex, s)) =
     (case ex of
        None \<Rightarrow> None
      | Some Normal \<Rightarrow>
          Some (Returned (output_buf s) (case returncode s of Some c \<Rightarrow> c | None \<Rightarrow> - 1))
      | Some (Exception e) \<Rightarrow> Some (Raised e))"
  by (simp add: session_result_def output_cleanup returncode_cleanup Let_def
      split: option.splits exit.splits)

lemma calls_after_loop:
  "\<exists>rest. calls (session_result os m r) = trace (snd r) @ rest"
  by (cases r) (simp add: calls_session_result)

subsection \<open>The three kinds of passes\<close>

lemma flow_read_output:
  "fst (read_output fd it s) =
     (case read_result it of
        Inl e \<Rightarrow> if is_OSError e then Break else Raise e
      | Inr chunk \<Rightarrow>
          if chunk = [] then Next
          else if decodable chunk then
            (case print_result it of
               None \<Rightarrow> Next
             | Some e \<Rightarrow> if is_OSError e then Break else Raise e)
          else Raise UnicodeDecodeError)"
  by (simp add: fst_read_output try_body_cases split: sum.splits option.splits)

lemma returncode_read_output: "returncode (snd (read_output fd it s)) = returncode s"
  by (simp add: snd_read_output try_body_cases split: sum.splits)

lemma output_read_output:
  "output_buf (snd (read_output fd it s)) = output_buf s @ chunk_read it"
  by (simp add: snd_read_output try_body_cases chunk_read_def split: sum.splits)

lemma key_step_done_cases:
  assumes "key_step_done it"
  obtains "event_type (key it) = KEY_UP"
  | nm data where "event_type (key it) = KEY_DOWN" "name (key it) = Some nm"
      "nm \<noteq> str ''ctrl+c''" "encode nm = Inr data" "write_result it = None"
proof (cases "event_type (key it)")
  case KEY_UP
  then show ?thesis using that(1) by simp
next
  case KEY_DOWN
  then show ?thesis
    using assms that(2)
    by (auto simp add: key_step_done_def split: option.splits sum.splits)
qed

lemma loop_body_key_step_done:
  assumes "key_step_done it"
  shows "\<exists>t. loop_body os p fd it s = read_output fd it t
           \<and> returncode t = returncode s \<and> output_buf t = output_buf s"
  using assms
proof (cases rule: key_step_done_cases)
  case 1
  let ?t = "s\<lparr>trace := trace s @ [Read_event (key it)]\<rparr>"
  have "loop_body os p fd it s = read_output fd it ?t"
    using 1 by (simp add: loop_body_key_up)
  moreover have "returncode ?t = returncode s" "output_buf ?t = output_buf s"
    by simp_all
  ultimately show ?thesis by blast
next
  case (2 nm data)
  let ?t = "s\<lparr>trace := trace s @ [Read_event (key it), Write fd data None]\<rparr>"
  have "loop_body os p fd it s = read_output fd it ?t"
    using 2 by (simp add: loop_body_key_down)
  moreover have "returncode ?t = returncode s" "output_buf ?t = output_buf s"
    by simp_all
  ultimately show ?thesis by blast
qed

lemma passes_next:
  assumes "passes it" "returncode s = None"
  shows "loop_body os p fd it (poll (poll_result it) s) = (Next, after os p fd it s)"
    and "returncode (after os p fd it s) = None"
    and "output_buf (after os p fd it s) = output_buf s @ chunk_read it"
proof -
  let ?p = "poll (poll_result it) s"
  have pl: "?p = s\<lparr>trace := trace s @ [Poll None]\<rparr>"
    using assms by (simp add: passes_def poll_alive)
  obtain t where t: "loop_body os p fd it ?p = read_output fd it t"
      "returncode t = returncode ?p" "output_buf t = output_buf ?p"
    using loop_body_key_step_done [of it os p fd ?p] assms(1) by (auto simp add: passes_def)
  have "fst (read_output fd it t) = Next"
    using assms(1) by (auto simp add: flow_read_output passes_def split: sum.splits)
  then show "loop_body os p fd it ?p = (Next, after os p fd it s)"
    using t(1) by (simp add: after_def prod_eq_iff)
  show "returncode (after os p fd it s) = None"
    using t assms(2) by (simp add: after_def returncode_read_output pl)
  show "output_buf (after os p fd it s) = output_buf s @ chunk_read it"
    using t by (simp add: after_def output_read_output pl)
qed


lemma otherwise_raises:
  assumes "\<not> passes it" "\<not> breaks os it" "returncode s = None"
  shows "\<exists>e s'. while_loop os p fd (it # its) s = (Some (Exception e), s')"
proof -
  have None: "poll_result it = None"
    using assms(2) by (simp add: breaks_def)
  let ?p = "s\<lparr>trace := trace s @ [Poll None]\<rparr>"
  have pl: "poll (poll_result it) s = ?p" "returncode ?p = None"
    using None assms(3) by (simp_all add: poll_alive)
  have "\<exists>e. fst (loop_body os p fd it ?p) = Raise e"
  proof (cases "key_step_done it")
    case True
    obtain t where t: "loop_body os p fd it ?p = read_output fd it t"
      using loop_body_key_step_done [OF True, of os p fd ?p] by blast
    have "\<exists>e. fst (read_output fd it t) = Raise e"
      using assms(1,2) True None
      by (auto simp add: flow_read_output passes_def breaks_def split: sum.splits option.splits)
    then show ?thesis using t by simp
  next
    case False
    then have down: "event_type (key it) = KEY_DOWN"
      by (simp add: key_step_done_def)
    show ?thesis
    proof (cases "name (key it)")
      case None
      then show ?thesis using down by (simp add: loop_body_unnamed)
    next
      case (Some nm)
      show ?thesis
      proof (cases "nm = str ''ctrl+c''")
        case True
        then have k: "key it = KeyboardEvent KEY_DOWN (Some (str ''ctrl+c''))"
          using down Some by (cases "key it") simp
        have os: "os = Nt"
          using assms(2) down Some True by (cases os) (simp_all add: breaks_def)
        show ?thesis
          using pl(2) by (simp add: loop_body_interrupt [OF k] os send_signal_nt)
      next
        case ne: False
        show ?thesis
        proof (cases "encode nm")
          case (Inl e)
          then show ?thesis using down Some ne by (simp add: loop_body_unencodable)
        next
          case (Inr data)
          then have "write_result it \<noteq> None"
            using False down Some ne by (simp add: key_step_done_def)
          then show ?thesis
            using down Some ne Inr by (auto simp add: loop_body_key_down)
        qed
      qed
    qed
  qed
  then show ?thesis
    using pl by (cases "loop_body os p fd it ?p") (auto simp add: Let_def)
qed

lemma while_loop_passes:
  assumes "\<forall>i\<in>set pre. passes i" "returncode s = None"
  shows "while_loop os p fd (pre @ rest) s =
           while_loop os p fd rest (foldl (\<lambda>t i. after os p fd i t) s pre)"
    and "returncode (foldl (\<lambda>t i. after os p fd i t) s pre) = None"
    and "output_buf (foldl (\<lambda>t i. after os p fd i t) s pre) =
           output_buf s @ concat (map chunk_read pre)"
  using assms
proof (induction pre arbitrary: s)
  case Nil
  { case 1 show ?case by simp }
  { case 2 then show ?case by simp }
  { case 3 show ?case by simp }
next
  case (Cons i pre)
  { case 1
    have "while_loop os p fd ((i # pre) @ rest) s =
        while_loop os p fd (pre @ rest) (after os p fd i s)"
      using 1 passes_next(1) [of i s os p fd] by (simp add: passes_def poll_alive)
    then show ?case
      using Cons.IH(1) [of "after os p fd i s"] 1 passes_next(2) [of i s os p fd] by simp }
  { case 2
    then show ?case
      using Cons.IH(2) [of "after os p fd i s"] passes_next(2) [of i s os p fd] by simp }
  { case 3
    then show ?case
      using Cons.IH(3) [of "after os p fd i s"] passes_next(2,3) [of i s os p fd] by simp }
qed

lemma returned_has_break:
  assumes "while_loop os p fd its s = (Some Normal, s')" "returncode s = None"
  shows "\<exists>pre it post. its = pre @ it # post \<and> (\<forall>i\<in>set pre. passes i) \<and> breaks os it"
  using assms
proof (induction its arbitrary: s)
  case Nil
  then show ?case by simp
next
  case (Cons i its)
  show ?case
  proof (cases "passes i")
    case True
    have "while_loop os p fd (i # its) s = while_loop os p fd its (after os p fd i s)"
      using while_loop_passes(1) [of "[i]" s os p fd its] True Cons.prems(2) by simp
    then obtain pre it post where
        "its = pre @ it # post" "\<forall>j\<in>set pre. passes j" "breaks os it"
      using Cons.IH [of "after os p fd i s"] Cons.prems passes_next(2) [OF True Cons.prems(2)]
      by auto
    then have "i # its = (i # pre) @ it # post" "\<forall>j\<in>set (i # pre). passes j" "breaks os it"
      using True by simp_all
    then show ?thesis by blast
  next
    case False
    have "breaks os i"
    proof (rule ccontr)
      assume "\<not> breaks os i"
      then show False
        using otherwise_raises [OF False _ Cons.prems(2), of os p fd its] Cons.prems(1) by auto
    qed
    then have "i # its = [] @ i # its" "\<forall>j\<in>set []. passes j" "breaks os i"
      by simp_all
    then show ?thesis by blast
  qed
qed

lemma run_reaches:
  assumes "terminal_size w = Inr (cols, rows)" "new_pty w = Inr (master_fd, slave_fd)"
    and "popen_result w = None"
    and "script w = pre @ rest" "\<forall>i\<in>set pre. passes i"
  shows "\<exists>s new. run_interactive_command w cmd n =
             session_result (os_name w) master_fd
               (while_loop (os_name w) (pid w) master_fd rest s)
           \<and> returncode s = None
           \<and> output_buf s = concat (map chunk_read pre)
           \<and> trace s = trace (entry w cmd cols rows master_fd slave_fd) @ new
           \<and> list_all loop_call new
           \<and> consistent s"
proof -
  let ?e = "entry w cmd cols rows master_fd slave_fd"
  let ?s = "foldl (\<lambda>t i. after (os_name w) (pid w) master_fd i t) ?e pre"
  have rc0: "returncode ?e = None"
    by (simp add: entry_def)
  have "run_interactive_command w cmd n =
      session_result (os_name w) master_fd (while_loop (os_name w) (pid w) master_fd rest ?s)"
    using run_entry [OF assms(1-3), of cmd n] while_loop_passes(1) [OF assms(5) rc0]
    by (simp add: assms(4))
  moreover have "returncode ?s = None"
    using while_loop_passes(2) [OF assms(5) rc0] .
  moreover have "output_buf ?s = concat (map chunk_read pre)"
  proof -
    have "output_buf ?e = []"
      by (simp add: entry_def)
    then show ?thesis
      using while_loop_passes(3) [OF assms(5) rc0, of "os_name w" "pid w" master_fd] by simp
  qed
  moreover obtain new where "trace ?s = trace ?e @ new" "list_all loop_call new"
    using through_extends [of "os_name w" "pid w" master_fd ?e pre] by auto
  moreover have "consistent ?s"
    by (rule consistent_through [OF consistent_entry])
  ultimately show ?thesis by blast
qed

section \<open>The claims\<close>

subsection \<open>C1: release of the pty on every exit route\<close>

text \<open>
  Once the child has been spawned, every way out of the function goes through the
  \<open>finally\<close> clause: the log holds exactly one release of the pty when the function has
  returned or raised, and none while it is still running (on the native path the
  descriptors of \<open>os.openpty()\<close> are non-negative and distinct).
\<close>

lemma cleanup_once_after_spawn:
  assumes "terminal_size w = Inr (cols, rows)" "new_pty w = Inr (master_fd, slave_fd)"
    and "popen_result w = None"
    and "os_name w = Posix \<longrightarrow> 0 \<le> master_fd \<and> master_fd \<noteq> slave_fd"
  shows "releases master_fd (calls (run_interactive_command w cmd n)) =
    (if outcome (run_interactive_command w cmd n) = None then 0 else 1)"
proof -
  let ?e = "entry w cmd cols rows master_fd slave_fd"
  obtain ex s where r: "while_loop (os_name w) (pid w) master_fd (script w) ?e = (ex, s)"
    by (cases "while_loop (os_name w) (pid w) master_fd (script w) ?e")
  obtain new where new: "trace s = trace ?e @ new" "list_all loop_call new"
    using while_loop_extends [of "os_name w" "pid w" master_fd "script w" ?e] r by auto
  have n: "filter (is_release master_fd) new = []"
    using new(2) by (rule no_release_in_loop)
  have e: "filter (is_release master_fd) (trace ?e) = []"
    using assms(4) by (cases "os_name w") (simp_all add: entry_def)
  have f: "filter (is_release master_fd) (finally_calls (os_name w) master_fd) =
      finally_calls (os_name w) master_fd \<and> length (finally_calls (os_name w) master_fd) = 1"
    using assms(4) by (cases "os_name w") (simp_all add: finally_calls_def cleanup_def logged_def)
  show ?thesis
    using run_entry [OF assms(1-3), of cmd n] r new(1) n e f
    by (simp add: calls_session_result outcome_session_result releases_def
        split: option.splits exit.splits)
qed

text \<open>
  Claim C1: the release of the pty (closing the controller descriptor, or the emulated
  pty's close operation) is performed exactly once on every exit route, also when the
  spawn of the child fails after the pty was allocated. The code does not do this on the
  last route: \<open>Popen\<close> is called before the \<open>try\<close> statement, so when it raises (here
  for a command that does not exist) the function ends with the exception after three
  calls, none of which closes descriptor 3 or 4: the number of releases is 0, not 1.
\<close>

theorem spawn_failure_skips_cleanup:
  "run_interactive_command w_enoent [''not-a-real-command-xyz''] 30 =
     \<lparr>calls = [Get_terminal_size (Inr (80, 24)), Openpty (Inr (3, 4)),
               Popen \<lparr>args = [''not-a-real-command-xyz''], stdin = Fd 4, stdout = Fd 4,
                      stderr = Fd 4, bufsize = 0, close_fds = True,
                      env = [(''PATH'', ''/usr/bin''), (''TERM'', ''xterm'')],
                      shell = False, preexec_fn = Some Os_setsid\<rparr>
                 (Some (OSError 2))],
      outcome = Some (Raised (OSError 2))\<rparr>
   \<and> releases 3 (calls (run_interactive_command w_enoent [''not-a-real-command-xyz''] 30)) = 0
   \<and> releases 4 (calls (run_interactive_command w_enoent [''not-a-real-command-xyz''] 30)) = 0"
  by (simp add: model_defs w_enoent_def releases_def)

subsection \<open>C2: the interrupt key\<close>




subsection \<open>C3: errors of the controller descriptor\<close>

text \<open>
  A failing read is caught (\<open>except OSError: break\<close>): the function releases the pty
  and returns what was captured, with the exit code \<open>-1\<close> since the child was found
  running by the poll of that pass.
\<close>

lemma read_error_ends_session:
  assumes "terminal_size w = Inr (cols, rows)" "new_pty w = Inr (master_fd, slave_fd)"
    and "popen_result w = None"
    and "script w = pre @ it # post" "\<forall>i\<in>set pre. passes i"
    and "poll_result it = None" "key_step_done it"
    and "read_result it = Inl (OSError errno)"
  shows "outcome (run_interactive_command w cmd n) =
           Some (Returned (concat (map chunk_read pre)) (- 1))"
    and "\<exists>before. calls (run_interactive_command w cmd n) =
           before @ [Read master_fd 1024 (Inl (OSError errno))]
                  @ finally_calls (os_name w) master_fd"
proof -
  obtain s new where s:
      "run_interactive_command w cmd n =
         session_result (os_name w) master_fd
           (while_loop (os_name w) (pid w) master_fd (it # post) s)"
      "returncode s = None"
      "output_buf s = concat (map chunk_read pre)"
    using run_reaches [OF assms(1-5), of cmd n] by blast
  let ?p = "s\<lparr>trace := trace s @ [Poll None]\<rparr>"
  have pl: "poll (poll_result it) s = ?p"
    using s(2) assms(6) by (simp add: poll_alive)
  obtain t where t: "loop_body (os_name w) (pid w) master_fd it ?p = read_output master_fd it t"
      "returncode t = returncode ?p" "output_buf t = output_buf ?p"
    using loop_body_key_step_done [OF assms(7), of "os_name w" "pid w" master_fd ?p] by blast
  let ?s' = "t\<lparr>trace := trace t @ [Read master_fd 1024 (Inl (OSError errno))]\<rparr>"
  have r: "read_output master_fd it t = (Break, ?s')"
    using assms(8) by (simp add: read_output_def try_body_cases)
  have l: "while_loop (os_name w) (pid w) master_fd (it # post) s = (Some Normal, ?s')"
    using pl t r s(2) by (simp add: Let_def)
  show "outcome (run_interactive_command w cmd n) =
           Some (Returned (concat (map chunk_read pre)) (- 1))"
    unfolding s(1) l using t(2,3) s(2,3) by (simp add: outcome_session_result)
  show "\<exists>before. calls (run_interactive_command w cmd n) =
           before @ [Read master_fd 1024 (Inl (OSError errno))]
                  @ finally_calls (os_name w) master_fd"
    unfolding s(1) l by (simp add: calls_session_result)
qed

text \<open>
  Claim C3: a failing read or write on the controller descriptor does not surface an
  exception; the function ends the loop, cleans up and returns the assembled result. The
  code does this for the read only. \<open>os.write\<close> is outside the inner \<open>try\<close>: when
  it raises \<open>OSError\<close> (here errno 5 on the first key press), the pty is released by
  the \<open>finally\<close> clause and the exception reaches the caller; no result is returned.
\<close>

theorem write_error_reaches_caller:
  "run_interactive_command (w_unix [write_fails]) [''cat''] 30 =
     \<lparr>calls = [Get_terminal_size (Inr (80, 24)), Openpty (Inr (3, 4)),
               Popen \<lparr>args = [''cat''], stdin = Fd 4, stdout = Fd 4,
                      stderr = Fd 4, bufsize = 0, close_fds = True,
                      env = [(''PATH'', ''/usr/bin''), (''TERM'', ''xterm'')],
                      shell = False, preexec_fn = Some Os_setsid\<rparr> None,
               Close 4, Poll None, Read_event (KeyboardEvent KEY_DOWN (Some (str ''a''))),
               Write 3 [0x61] (Some (OSError 5)), Close 3],
      outcome = Some (Raised (OSError 5))\<rparr>"
  by (simp add: model_defs w_unix_def write_fails_def quiet_def)

subsection \<open>C4: the result\<close>

text \<open>
  Whatever the function returns agrees with the log: the bytes are those that the reads
  returned, the integer is the exit status that a poll reported, or \<open>-1\<close>. And it
  returns only after a pass that ends the loop without an exception.
\<close>

lemma returned_is_captured_and_reported:
  assumes "outcome (run_interactive_command w cmd n) = Some (Returned out code)"
  shows "out = captured (calls (run_interactive_command w cmd n))
       \<and> code = (case reported (calls (run_interactive_command w cmd n)) of
                   Some c \<Rightarrow> c | None \<Rightarrow> - 1)
       \<and> (\<exists>pre it post. script w = pre @ it # post \<and> (\<forall>i\<in>set pre. passes i)
             \<and> breaks (os_name w) it)"
proof -
  obtain cols rows where ts: "terminal_size w = Inr (cols, rows)"
    using assms early_failures(1) [of w _ cmd n]
    by (cases "terminal_size w") auto
  obtain master_fd slave_fd where np: "new_pty w = Inr (master_fd, slave_fd)"
    using assms early_failures(2) [OF ts, of _ cmd n]
    by (cases "new_pty w") auto
  have pr: "popen_result w = None"
    using assms early_failures(3) [OF ts np, of _ cmd n]
    by (cases "popen_result w") auto
  let ?e = "entry w cmd cols rows master_fd slave_fd"
  obtain ex s where r: "while_loop (os_name w) (pid w) master_fd (script w) ?e = (ex, s)"
    by (cases "while_loop (os_name w) (pid w) master_fd (script w) ?e")
  have run: "run_interactive_command w cmd n = session_result (os_name w) master_fd (ex, s)"
    using run_entry [OF ts np pr, of cmd n] r by simp
  have ex: "ex = Some Normal"
    using assms unfolding run
    by (simp add: outcome_session_result split: option.splits exit.splits)
  have res: "out = output_buf s" "code = (case returncode s of Some c \<Rightarrow> c | None \<Rightarrow> - 1)"
    using assms unfolding run ex by (simp_all add: outcome_session_result)
  have c: "calls (run_interactive_command w cmd n) =
      trace s @ finally_calls (os_name w) master_fd"
    unfolding run ex by (simp add: calls_session_result)
  have "consistent s"
    using consistent_while_loop [OF consistent_entry, of "os_name w" "pid w" master_fd "script w"
        w cmd cols rows master_fd slave_fd] r by simp
  then have "out = captured (calls (run_interactive_command w cmd n))"
    and "code = (case reported (calls (run_interactive_command w cmd n)) of
                   Some c \<Rightarrow> c | None \<Rightarrow> - 1)"
    unfolding c res
    by (simp_all add: consistent_def captured_append captured_finally reported_append
        reported_finally)
  moreover have "\<exists>pre it post. script w = pre @ it # post \<and> (\<forall>i\<in>set pre. passes i)
      \<and> breaks (os_name w) it"
  proof (rule returned_has_break)
    show "while_loop (os_name w) (pid w) master_fd (script w) ?e = (Some Normal, s)"
      using r ex by simp
    show "returncode ?e = None"
      by (simp add: entry_def)
  qed
  ultimately show ?thesis by blast
qed




subsection \<open>C5: key presses are written by name\<close>

text \<open>
  The bytes of a name made of ASCII characters are the characters of the name themselves.
\<close>

lemma encode_ascii:
  "\<forall>c\<in>set s. of_char c < (128 :: nat) \<Longrightarrow>
   encode (str s) = Inr (map (\<lambda>c. of_nat (of_char c)) s)"
  by (induction s) (simp_all add: str_def encode_char_def)

text \<open>
  Claim C5 as stated: for every key-press event of a non-interrupt key the loop writes the
  encoded name of the key to the controller descriptor. This fails for a key without a
  name: \<open>event.name\<close> is \<open>None\<close>, the comparison with \<open>'ctrl+c'\<close> is false, and
  \<open>event.name.encode()\<close> raises \<open>AttributeError\<close> before \<open>os.write\<close> is reached.
  In the session below nothing is written and the exception reaches the caller.
\<close>

theorem unnamed_key_is_not_written:
  "run_interactive_command (w_unix [key_down_unnamed]) [''cat''] 30 =
     \<lparr>calls = [Get_terminal_size (Inr (80, 24)), Openpty (Inr (3, 4)),
               Popen \<lparr>args = [''cat''], stdin = Fd 4, stdout = Fd 4,
                      stderr = Fd 4, bufsize = 0, close_fds = True,
                      env = [(''PATH'', ''/usr/bin''), (''TERM'', ''xterm'')],
                      shell = False, preexec_fn = Some Os_setsid\<rparr> None,
               Close 4, Poll None, Read_event (KeyboardEvent KEY_DOWN None), Close 3],
      outcome = Some (Raised AttributeError)\<rparr>"
  by (simp add: model_defs w_unix_def key_down_unnamed_def quiet_def)

text \<open>
  Claim C5 as amended: for every key-press event of a key that has a name, other than the
  interrupt combination, whose name UTF-8 can encode (in any pass that the session reaches
  with the child found running), the loop calls \<open>os.write\<close> on the controller
  descriptor of the pty with the encoded name, right after reading the event. It is the
  only write of the pass: the body of the loop makes the calls \<open>read_event\<close> and
  \<open>write\<close> and, when the write succeeds, \<open>read\<close> and at most the \<open>print\<close> of
  the chunk. The name is written as it is: for \<open>enter\<close> the five bytes of the word, not
  a carriage return.
\<close>

theorem key_press_writes_key_name:
  assumes "terminal_size w = Inr (cols, rows)" "new_pty w = Inr (master_fd, slave_fd)"
    and "popen_result w = None"
    and "script w = pre @ it # post" "\<forall>i\<in>set pre. passes i"
    and "poll_result it = None"
    and "event_type (key it) = KEY_DOWN" "name (key it) = Some nm"
    and "nm \<noteq> str ''ctrl+c''" "encode nm = Inr data"
  shows "(\<exists>before rest.
      calls (run_interactive_command w cmd n) =
        before @ [Poll None, Read_event (key it),
                  Write master_fd data (write_result it)] @ rest)
    \<and> (\<exists>fl reads prints.
          loop_body (os_name w) (pid w) master_fd it s =
            (fl, s\<lparr>output_buf := output_buf s @ concat (map chunk_of reads),
                   trace := trace s @ [Read_event (key it),
                                       Write master_fd data (write_result it)] @ reads\<rparr>)
        \<and> reads = (if write_result it = None
                    then Read master_fd 1024 (read_result it) # prints else [])
        \<and> (prints = [] \<or> prints = [Print (chunk_read it)]))"
proof
  obtain s0 where s0:
      "run_interactive_command w cmd n =
         session_result (os_name w) master_fd
           (while_loop (os_name w) (pid w) master_fd (it # post) s0)"
      "returncode s0 = None"
    using run_reaches [OF assms(1-5), of cmd n] by blast
  let ?p = "s0\<lparr>trace := trace s0 @ [Poll None]\<rparr>"
  let ?new = "[Poll None, Read_event (key it), Write master_fd data (write_result it)]"
  have "\<exists>r1. trace (snd (loop_body (os_name w) (pid w) master_fd it ?p)) =
      trace s0 @ ?new @ r1"
  proof (cases "write_result it")
    case (Some e)
    then show ?thesis using assms(7-10) by (simp add: loop_body_key_down)
  next
    case None
    then show ?thesis
      using assms(7-10)
        read_output_extends [of master_fd it
          "?p\<lparr>trace := trace ?p @ [Read_event (key it), Write master_fd data None]\<rparr>"]
      by (auto simp add: loop_body_key_down)
  qed
  then obtain r1 where r1:
      "trace (snd (loop_body (os_name w) (pid w) master_fd it ?p)) = trace s0 @ ?new @ r1"
    by blast
  obtain r2 where r2: "trace (snd (while_loop (os_name w) (pid w) master_fd (it # post) s0)) =
      trace (snd (loop_body (os_name w) (pid w) master_fd it ?p)) @ r2"
    using while_loop_alive [OF s0(2) assms(6), of "os_name w" "pid w" master_fd post] by blast
  obtain r3 where r3: "calls (run_interactive_command w cmd n) =
      trace (snd (while_loop (os_name w) (pid w) master_fd (it # post) s0)) @ r3"
    unfolding s0(1)
    using calls_after_loop [of "os_name w" master_fd
        "while_loop (os_name w) (pid w) master_fd (it # post) s0"]
    by blast
  have "calls (run_interactive_command w cmd n) = trace s0 @ ?new @ (r1 @ r2 @ r3)"
    unfolding r3 r2 r1 by simp
  then show "\<exists>before rest.
      calls (run_interactive_command w cmd n) =
        before @ [Poll None, Read_event (key it),
                  Write master_fd data (write_result it)] @ rest"
    by blast
next
  define prints where
    "prints = (case read_result it of
                 Inl e \<Rightarrow> []
               | Inr chunk \<Rightarrow> if chunk \<noteq> [] \<and> decodable chunk then [Print chunk] else [])"
  define reads where
    "reads = (if write_result it = None
              then Read master_fd 1024 (read_result it) # prints else [])"
  have p: "prints = [] \<or> prints = [Print (chunk_read it)]"
    by (simp add: prints_def chunk_read_def split: sum.splits)
  have "snd (loop_body (os_name w) (pid w) master_fd it s) =
      s\<lparr>output_buf := output_buf s @ concat (map chunk_of reads),
        trace := trace s @ [Read_event (key it), Write master_fd data (write_result it)]
                 @ reads\<rparr>"
    using assms(7-10)
    by (simp add: loop_body_key_down snd_read_output try_body_cases reads_def prints_def
        split: option.splits sum.splits)
  then have "loop_body (os_name w) (pid w) master_fd it s =
      (fst (loop_body (os_name w) (pid w) master_fd it s),
       s\<lparr>output_buf := output_buf s @ concat (map chunk_of reads),
         trace := trace s @ [Read_event (key it), Write master_fd data (write_result it)]
                  @ reads\<rparr>)"
    by (simp add: prod_eq_iff)
  then show "\<exists>fl reads prints.
          loop_body (os_name w) (pid w) master_fd it s =
            (fl, s\<lparr>output_buf := output_buf s @ concat (map chunk_of reads),
                   trace := trace s @ [Read_event (key it),
                                       Write master_fd data (write_result it)] @ reads\<rparr>)
        \<and> reads = (if write_result it = None
                    then Read master_fd 1024 (read_result it) # prints else [])
        \<and> (prints = [] \<or> prints = [Print (chunk_read it)])"
    using p reads_def by blast
qed

theorem key_press_writes_key_name_witness:
  "(\<exists>before rest.
      calls (run_interactive_command (w_unix [key_up_enter, key_down_enter, child_exited 0])
               [''cat''] 30) =
        before @ [Poll None, Read_event (KeyboardEvent KEY_DOWN (Some (str ''enter''))),
                  Write 3 [0x65, 0x6E, 0x74, 0x65, 0x72] None] @ rest)
   \<and> loop_body Posix 4242 3 key_down_enter
        \<lparr>output_buf = [], returncode = None, trace = [Poll None]\<rparr> =
      (Next, \<lparr>output_buf = [0x68, 0x69], returncode = None,
              trace = [Poll None, Read_event (KeyboardEvent KEY_DOWN (Some (str ''enter''))),
                       Write 3 [0x65, 0x6E, 0x74, 0x65, 0x72] None,
                       Read 3 1024 (Inr [0x68, 0x69]), Print [0x68, 0x69]]\<rparr>)"
proof -
  let ?w = "w_unix [key_up_enter, key_down_enter, child_exited 0]"
  have h1: "terminal_size ?w = Inr (80, 24)" by (simp add: w_unix_def)
  have h2: "new_pty ?w = Inr (3, 4)" by (simp add: w_unix_def)
  have h3: "popen_result ?w = None" by (simp add: w_unix_def)
  have h4: "script ?w = [key_up_enter] @ key_down_enter # [child_exited 0]"
    by (simp add: w_unix_def)
  have h5: "\<forall>i\<in>set [key_up_enter]. passes i"
    by (simp add: passes_def key_step_done_def key_up_enter_def quiet_def)
  have h6: "poll_result key_down_enter = None" by (simp add: key_down_enter_def quiet_def)
  have h7: "event_type (key key_down_enter) = KEY_DOWN"
    by (simp add: key_down_enter_def quiet_def)
  have h8: "name (key key_down_enter) = Some (str ''enter'')"
    by (simp add: key_down_enter_def quiet_def)
  have h9: "str ''enter'' \<noteq> str ''ctrl+c''"
    by (simp add: str_def)
  have h10: "encode (str ''enter'') = Inr [0x65, 0x6E, 0x74, 0x65, 0x72]"
    by (simp add: str_def encode_char_def)
  have k: "key key_down_enter = KeyboardEvent KEY_DOWN (Some (str ''enter''))"
    "write_result key_down_enter = None"
    by (simp_all add: key_down_enter_def quiet_def)
  have v: "loop_body Posix 4242 3 key_down_enter
        \<lparr>output_buf = [], returncode = None, trace = [Poll None]\<rparr> =
      (Next, \<lparr>output_buf = [0x68, 0x69], returncode = None,
              trace = [Poll None, Read_event (KeyboardEvent KEY_DOWN (Some (str ''enter''))),
                       Write 3 [0x65, 0x6E, 0x74, 0x65, 0x72] None,
                       Read 3 1024 (Inr [0x68, 0x69]), Print [0x68, 0x69]]\<rparr>)"
    by (simp add: model_defs key_down_enter_def quiet_def)
  show ?thesis
    using key_press_writes_key_name [OF h1 h2 h3 h4 h5 h6 h7 h8 h9 h10, of "[''cat'']" 30] v
    by (simp add: k)
qed

subsection \<open>C6: a child that exits without output\<close>

text \<open>
  Claim C6: when a poll of the loop finds the child exited with some status, and no read
  before that poll returned any byte (in particular when the first poll finds it), the
  function returns the empty byte sequence and that exit status.
\<close>

theorem silent_child_returns_exit_code:
  assumes "terminal_size w = Inr (cols, rows)" "new_pty w = Inr (master_fd, slave_fd)"
    and "popen_result w = None"
    and "script w = pre @ it # post"
    and "\<forall>i\<in>set pre. passes i \<and> chunk_read i = []"
    and "poll_result it = Some code"
  shows "outcome (run_interactive_command w cmd n) = Some (Returned [] code)"
proof -
  have pre: "\<forall>i\<in>set pre. passes i"
    using assms(5) by blast
  have quiet: "concat (map chunk_read pre) = []"
    using assms(5) by simp
  obtain s where s:
      "run_interactive_command w cmd n =
         session_result (os_name w) master_fd
           (while_loop (os_name w) (pid w) master_fd (it # post) s)"
      "returncode s = None" "output_buf s = concat (map chunk_read pre)"
    using run_reaches [OF assms(1-4) pre, of cmd n] by blast
  have l: "while_loop (os_name w) (pid w) master_fd (it # post) s =
      (Some Normal, s\<lparr>returncode := Some code, trace := trace s @ [Poll (Some code)]\<rparr>)"
    using s(2) assms(6) by (simp add: poll_exited)
  show ?thesis
    unfolding s(1) l using s(3) quiet by (simp add: outcome_session_result)
qed

theorem silent_child_returns_exit_code_witness:
  "outcome (run_interactive_command (w_unix [child_exited 1]) [''false''] 30) =
     Some (Returned [] 1)
   \<and> outcome (run_interactive_command (w_unix [key_up_enter, child_exited 0]) [''true''] 30) =
     Some (Returned [] 0)"
proof -
  have a: "outcome (run_interactive_command (w_unix [child_exited 1]) [''false''] 30) =
     Some (Returned [] 1)"
    using silent_child_returns_exit_code
      [of "w_unix [child_exited 1]" 80 24 3 4 "[]" "child_exited 1" "[]" 1 "[''false'']" 30]
    by (simp add: w_unix_def child_exited_def quiet_def)
  have b: "outcome (run_interactive_command (w_unix [key_up_enter, child_exited 0])
     [''true''] 30) = Some (Returned [] 0)"
    using silent_child_returns_exit_code
      [of "w_unix [key_up_enter, child_exited 0]" 80 24 3 4 "[key_up_enter]" "child_exited 0"
          "[]" 0 "[''true'']" 30]
    by (simp add: w_unix_def child_exited_def key_up_enter_def quiet_def passes_def
        key_step_done_def chunk_read_def)
  show ?thesis using a b by simp
qed

subsection \<open>C7: the environment of the child\<close>

text \<open>
  Claim C7: once the pty is allocated the function spawns exactly one child, and the
  environment passed to it is the parent's with \<open>TERM\<close> set to \<open>xterm\<close>: looking up
  \<open>TERM\<close> gives \<open>xterm\<close>, looking up any other variable gives what the parent's
  environment gives.
\<close>

theorem child_environment_is_parent_with_term:
  assumes "terminal_size w = Inr (cols, rows)" "new_pty w = Inr (master_fd, slave_fd)"
  shows "\<exists>a. filter is_popen (calls (run_interactive_command w cmd n)) =
               [Popen a (popen_result w)]
           \<and> map_of (env a) = (map_of (environ w))(''TERM'' \<mapsto> ''xterm'')"
proof -
  let ?a = "spawn_args (os_name w) cmd slave_fd (child_env (environ w))"
  have e: "map_of (env ?a) = (map_of (environ w))(''TERM'' \<mapsto> ''xterm'')"
    by (simp add: spawn_args_def child_env_def update_conv')
  have "filter is_popen (calls (run_interactive_command w cmd n)) = [Popen ?a (popen_result w)]"
  proof (cases "popen_result w")
    case (Some x)
    then show ?thesis
      using assms by (simp add: run_interactive_command_def Let_def)
  next
    case None
    let ?e = "entry w cmd cols rows master_fd slave_fd"
    obtain ex s where r: "while_loop (os_name w) (pid w) master_fd (script w) ?e = (ex, s)"
      by (cases "while_loop (os_name w) (pid w) master_fd (script w) ?e")
    obtain new where new: "trace s = trace ?e @ new" "list_all loop_call new"
      using while_loop_extends [of "os_name w" "pid w" master_fd "script w" ?e] r by auto
    have "filter is_popen (trace ?e) = [Popen ?a None]"
      by (simp add: entry_def)
    then show ?thesis
      using run_entry [OF assms None, of cmd n] r new(1) no_popen_in_loop [OF new(2)] None
      by (simp add: calls_session_result no_popen_finally)
  qed
  then show ?thesis using e by blast
qed

theorem child_environment_is_parent_with_term_witness:
  "\<exists>a. filter is_popen (calls (run_interactive_command (w_unix [key_down_enter]) [''cat''] 30))
         = [Popen a None]
       \<and> map_of (env a) ''TERM'' = Some ''xterm''
       \<and> map_of (env a) ''PATH'' = Some ''/usr/bin''
       \<and> map_of (env a) ''HOME'' = None"
proof -
  let ?w = "w_unix [key_down_enter]"
  have h1: "terminal_size ?w = Inr (80, 24)" by (simp add: w_unix_def)
  have h2: "new_pty ?w = Inr (3, 4)" by (simp add: w_unix_def)
  have p: "popen_result ?w = None"
    "environ ?w = [(''PATH'', ''/usr/bin''), (''TERM'', ''screen'')]"
    by (simp_all add: w_unix_def)
  obtain a where a:
      "filter is_popen (calls (run_interactive_command ?w [''cat''] 30)) = [Popen a None]"
      "map_of (env a) = (map_of (environ ?w))(''TERM'' \<mapsto> ''xterm'')"
    using child_environment_is_parent_with_term [OF h1 h2, of "[''cat'']" 30]
    unfolding p(1) by blast
  have "map_of (env a) ''TERM'' = Some ''xterm''" "map_of (env a) ''PATH'' = Some ''/usr/bin''"
    "map_of (env a) ''HOME'' = None"
    unfolding a(2) p(2) by simp_all
  then show ?thesis using a(1) by blast
qed

subsection \<open>C8: the runtime hint\<close>

text \<open>
  Claim C8: \<open>expected_runtime_seconds\<close> has no effect: in the same world and for the
  same command, any two values give the same calls and the same outcome. No deadline is
  enforced: as long as the child runs, no interrupt key is pressed and no call fails, the
  function has not returned, however many passes the loop has made.
\<close>

theorem expected_runtime_is_unused:
  "run_interactive_command w cmd a = run_interactive_command w cmd b
   \<and> (terminal_size w = Inr (cols, rows) \<and> new_pty w = Inr (master_fd, slave_fd)
        \<and> popen_result w = None \<and> (\<forall>i\<in>set (script w). passes i)
      \<longrightarrow> outcome (run_interactive_command w cmd a) = None)"
proof
  show "run_interactive_command w cmd a = run_interactive_command w cmd b"
    by (simp add: run_interactive_command_def)
next
  show "terminal_size w = Inr (cols, rows) \<and> new_pty w = Inr (master_fd, slave_fd)
        \<and> popen_result w = None \<and> (\<forall>i\<in>set (script w). passes i)
      \<longrightarrow> outcome (run_interactive_command w cmd a) = None"
  proof
    assume h: "terminal_size w = Inr (cols, rows) \<and> new_pty w = Inr (master_fd, slave_fd)
        \<and> popen_result w = None \<and> (\<forall>i\<in>set (script w). passes i)"
    have sc: "script w = script w @ []"
      by simp
    obtain s where "run_interactive_command w cmd a =
        session_result (os_name w) master_fd
          (while_loop (os_name w) (pid w) master_fd [] s)"
      using h run_reaches [of w cols rows master_fd slave_fd "script w" "[]" cmd a, OF _ _ _ sc]
      by blast
    then show "outcome (run_interactive_command w cmd a) = None"
      by (simp add: outcome_session_result)
  qed
qed

theorem expected_runtime_is_unused_witness:
  "run_interactive_command (w_unix [key_down_enter, key_up_enter]) [''sleep'', ''5''] 1 =
   run_interactive_command (w_unix [key_down_enter, key_up_enter]) [''sleep'', ''5''] 30
   \<and> outcome (run_interactive_command (w_unix [key_down_enter, key_up_enter])
        [''sleep'', ''5''] 1) = None"
proof -
  let ?w = "w_unix [key_down_enter, key_up_enter]"
  have h: "terminal_size ?w = Inr (80, 24) \<and> new_pty ?w = Inr (3, 4)
        \<and> popen_result ?w = None \<and> (\<forall>i\<in>set (script ?w). passes i)"
    by (simp add: w_unix_def passes_def key_step_done_def key_down_enter_def key_up_enter_def
        quiet_def str_def encode_char_def)
  show ?thesis
    using expected_runtime_is_unused [of ?w "[''sleep'', ''5'']" 1 30 80 24 3 4] h
    by blast
qed

subsection \<open>C9: the exit code after an interrupt\<close>




subsection \<open>C10: key releases\<close>

text \<open>
  Claim C10: for a key-release event, one pass through the loop body makes the calls
  \<open>keyboard.read_event\<close> and \<open>os.read\<close>, followed at most by the \<open>print\<close> of the
  chunk: no write to the controller descriptor and no signal. The read step is reached,
  and the bytes it returns are appended to the output buffer in that pass.
\<close>

theorem key_release_only_reads:
  assumes "event_type (key it) = KEY_UP"
  shows "\<exists>fl prints.
      loop_body os child_pid master_fd it s =
        (fl, s\<lparr>output_buf := output_buf s @ chunk_read it,
               trace := trace s @ [Read_event (key it),
                                   Read master_fd 1024 (read_result it)] @ prints\<rparr>)
    \<and> (prints = [] \<or> prints = [Print (chunk_read it)])"
proof -
  have up: "event_type (key it) \<noteq> KEY_DOWN"
    using assms by simp
  define prints where
    "prints = (case read_result it of
                 Inl e \<Rightarrow> []
               | Inr chunk \<Rightarrow> if chunk \<noteq> [] \<and> decodable chunk then [Print chunk] else [])"
  have p: "prints = [] \<or> prints = [Print (chunk_read it)]"
    by (simp add: prints_def chunk_read_def split: sum.splits)
  have "snd (loop_body os child_pid master_fd it s) =
      s\<lparr>output_buf := output_buf s @ chunk_read it,
        trace := trace s @ [Read_event (key it), Read master_fd 1024 (read_result it)]
                 @ prints\<rparr>"
    using up
    by (simp add: loop_body_key_up snd_read_output try_body_cases chunk_read_def prints_def
        split: sum.splits)
  then have "loop_body os child_pid master_fd it s =
      (fst (loop_body os child_pid master_fd it s),
       s\<lparr>output_buf := output_buf s @ chunk_read it,
         trace := trace s @ [Read_event (key it), Read master_fd 1024 (read_result it)]
                  @ prints\<rparr>)"
    by (simp add: prod_eq_iff)
  then show ?thesis using p by blast
qed

theorem key_release_only_reads_witness:
  "loop_body Posix 4242 3 key_up_output
     \<lparr>output_buf = [0x68, 0x69], returncode = None, trace = [Poll None]\<rparr>
     = (Next, \<lparr>output_buf = [0x68, 0x69, 0x6F, 0x6B], returncode = None,
               trace = [Poll None, Read_event (KeyboardEvent KEY_UP (Some (str ''ctrl+c''))),
                        Read 3 1024 (Inr [0x6F, 0x6B]), Print [0x6F, 0x6B]]\<rparr>)"
proof -
  have h: "event_type (key key_up_output) = KEY_UP"
    by (simp add: key_up_output_def quiet_def)
  have v: "loop_body Posix 4242 3 key_up_output
      \<lparr>output_buf = [0x68, 0x69], returncode = None, trace = [Poll None]\<rparr>
     = (Next, \<lparr>output_buf = [0x68, 0x69, 0x6F, 0x6B], returncode = None,
               trace = [Poll None, Read_event (KeyboardEvent KEY_UP (Some (str ''ctrl+c''))),
                        Read 3 1024 (Inr [0x6F, 0x6B]), Print [0x6F, 0x6B]]\<rparr>)"
    by (simp add: model_defs key_up_output_def quiet_def)
  show ?thesis
    using key_release_only_reads [OF h, of Posix 4242 3
        "\<lparr>output_buf = [0x68, 0x69], returncode = None, trace = [Poll None]\<rparr>"] v
    by simp
qed

end
